theory Spec2Isabelle
  imports Main "HOL-Library.AList"
begin

section \<open>The transaction dependency engine of run-db (src/src/database.js)\<close>

text \<open>
  The class \<open>Database\<close> keeps a set of SQLite tables and, beside them, an in-memory
  graph of \<open>UnexecutedTx\<close> objects. The objects are shared: a node is referenced from
  the map \<open>unexecuted\<close> and from the \<open>upstream\<close> and \<open>downstream\<close> sets of other
  nodes, and it stays referenced from those sets after it has left the map. The model
  therefore keeps an explicit store: a node is an address into \<open>heap\<close>, a JavaScript
  \<open>Set\<close> of nodes is a duplicate-free list of addresses in insertion order, and the map
  \<open>unexecuted\<close> is an association list from txids to addresses.
\<close>

subsection \<open>Data\<close>

type_synonym txid = string
type_synonym addr = nat

text \<open>\<open>class UnexecutedTx\<close>. The field \<open>hasCode\<close> is \<open>null\<close>, \<open>true\<close> or \<open>false\<close>.\<close>

record UnexecutedTx =
  txid :: txid
  downloaded :: bool
  hasCode :: "bool option"
  queuedForExecution :: bool
  upstream :: "addr list"
  downstream :: "addr list"

text \<open>A row of table \<open>tx\<close> (schema v2), without its key. The blob \<open>bytes\<close> is kept as
  the hex string it was made from, which is what \<open>LOWER(HEX(bytes))\<close> gives back for
  well-formed lowercase hex.\<close>

record tx_row =
  height :: "int option"
  time :: "int option"
  bytes :: "string option"
  has_code :: int
  executable :: int
  executed :: int
  indexed :: int

record jig_row =
  jig_state :: string
  jig_class :: "string option"
  jig_lock :: "string option"
  jig_scripthash :: "string option"

text \<open>The callbacks of the event sink. Each logged event carries the number of store
  transactions that were open when the callback was invoked.\<close>

datatype event =
    ReadyToExecute txid
  | AddTransaction txid
  | DeleteTransaction txid
  | TrustTransaction txid
  | UntrustTransaction txid
  | BanTransaction txid
  | UnbanTransaction txid
  | UnindexTransaction txid

text \<open>The tables \<open>tx\<close>, \<open>deps\<close>, \<open>jig\<close>, \<open>berry\<close>, \<open>spends\<close>, \<open>trust\<close>, \<open>ban\<close>, and the
  fields of \<open>Database\<close>. Table \<open>deps\<close> is a list of rows \<open>(up, down)\<close> in insertion
  order, unique by \<open>INSERT OR IGNORE\<close>. \<open>openTransactions\<close> counts the store
  transactions (and savepoints) currently open.\<close>

record state =
  tx_table :: "txid \<rightharpoonup> tx_row"
  deps_table :: "(txid \<times> txid) list"
  jig_table :: "string \<rightharpoonup> jig_row"
  berry_table :: "string \<rightharpoonup> string"
  spends_table :: "string \<rightharpoonup> txid option"
  trust_table :: "txid \<rightharpoonup> int"
  ban_table :: "txid set"
  trustlist :: "txid set"
  banlist :: "txid set"
  unexecuted :: "(txid \<times> addr) list"
  heap :: "UnexecutedTx list"
  numQueuedForExecution :: int
  events :: "(event \<times> nat) list"
  openTransactions :: nat

text \<open>What JavaScript can throw here: a \<open>TypeError\<close> on reading a property of
  \<open>undefined\<close>, and a \<open>RangeError\<close> when the call stack is exhausted. A thrown error
  aborts the operation; the model does not describe the state it leaves behind.\<close>

datatype error = TypeError | RangeError

text \<open>An open database with empty tables and nothing in memory.\<close>

definition empty_db :: state where
  "empty_db = \<lparr> tx_table = Map.empty, deps_table = [], jig_table = Map.empty,
     berry_table = Map.empty, spends_table = Map.empty, trust_table = Map.empty,
     ban_table = {}, trustlist = {}, banlist = {}, unexecuted = [], heap = [],
     numQueuedForExecution = 0, events = [], openTransactions = 0 \<rparr>"

subsection \<open>Store and sets\<close>

text \<open>A reference always denotes an allocated object. Reading an address outside the
  allocated range, which no JavaScript reference can do, yields an inert node, so that
  the functions below are total.\<close>

definition inert :: UnexecutedTx where
  "inert = \<lparr> txid = [], downloaded = False, hasCode = None, queuedForExecution = False,
     upstream = [], downstream = [] \<rparr>"

definition node_at :: "state \<Rightarrow> addr \<Rightarrow> UnexecutedTx" where
  "node_at s a = (if a < length (heap s) then heap s ! a else inert)"

definition set_node :: "addr \<Rightarrow> UnexecutedTx \<Rightarrow> state \<Rightarrow> state" where
  "set_node a n s = s\<lparr>heap := (heap s)[a := n]\<rparr>"

text \<open>\<open>new UnexecutedTx(txid, downloaded, hasCode)\<close>: the new object and the store.\<close>

definition new_UnexecutedTx :: "txid \<Rightarrow> bool \<Rightarrow> bool option \<Rightarrow> state \<Rightarrow> addr \<times> state" where
  "new_UnexecutedTx t d h s =
     (length (heap s),
      s\<lparr>heap := heap s @ [\<lparr> txid = t, downloaded = d, hasCode = h,
            queuedForExecution = False, upstream = [], downstream = [] \<rparr>]\<rparr>)"

text \<open>\<open>Set.prototype.add\<close> and \<open>Set.prototype.delete\<close> on an insertion-ordered set.\<close>

definition set_add :: "'a \<Rightarrow> 'a list \<Rightarrow> 'a list" where
  "set_add x xs = (if x \<in> set xs then xs else xs @ [x])"

definition set_delete :: "'a \<Rightarrow> 'a list \<Rightarrow> 'a list" where
  "set_delete x xs = filter (\<lambda>y. y \<noteq> x) xs"

text \<open>\<open>this.unexecuted.get\<close>, \<open>.set\<close>, \<open>.delete\<close>.\<close>

definition unexecuted_get :: "state \<Rightarrow> txid \<Rightarrow> addr option" where
  "unexecuted_get s t = map_of (unexecuted s) t"

definition unexecuted_set :: "txid \<Rightarrow> addr \<Rightarrow> state \<Rightarrow> state" where
  "unexecuted_set t a s = s\<lparr>unexecuted := AList.update t a (unexecuted s)\<rparr>"

definition unexecuted_delete :: "txid \<Rightarrow> state \<Rightarrow> state" where
  "unexecuted_delete t s = s\<lparr>unexecuted := AList.delete t (unexecuted s)\<rparr>"

text \<open>Invoking a callback: the event is logged with the number of open transactions.\<close>

definition emit :: "event \<Rightarrow> state \<Rightarrow> state" where
  "emit e s = s\<lparr>events := events s @ [(e, openTransactions s)]\<rparr>"

text \<open>\<open>transaction (f)\<close> on an open database: \<open>BEGIN\<close> (or \<open>SAVEPOINT\<close> when nested),
  the body, \<open>COMMIT\<close>; an exception of the body rolls back and is thrown again.\<close>

definition begin_transaction :: "state \<Rightarrow> state" where
  "begin_transaction s = s\<lparr>openTransactions := Suc (openTransactions s)\<rparr>"

definition commit_transaction :: "state \<Rightarrow> state" where
  "commit_transaction s = s\<lparr>openTransactions := openTransactions s - 1\<rparr>"

definition transaction :: "(state \<Rightarrow> error + state) \<Rightarrow> state \<Rightarrow> error + state" where
  "transaction f s =
     (case f (begin_transaction s) of
        Inl e \<Rightarrow> Inl e
      | Inr s' \<Rightarrow> Inr (commit_transaction s'))"

text \<open>A \<open>for\<close> loop whose body may throw.\<close>

fun forEach :: "('a \<Rightarrow> state \<Rightarrow> error + state) \<Rightarrow> 'a list \<Rightarrow> state \<Rightarrow> error + state" where
  "forEach f [] s = Inr s"
| "forEach f (x # xs) s = (case f x s of Inl e \<Rightarrow> Inl e | Inr s' \<Rightarrow> forEach f xs s')"

subsection \<open>Prepared statements\<close>

text \<open>\<open>UPDATE tx SET ... WHERE txid = ?\<close> changes nothing when the row is missing.\<close>

definition update_tx :: "txid \<Rightarrow> (tx_row \<Rightarrow> tx_row) \<Rightarrow> state \<Rightarrow> state" where
  "update_tx t f s =
     (case tx_table s t of
        None \<Rightarrow> s
      | Some r \<Rightarrow> s\<lparr>tx_table := (tx_table s)(t \<mapsto> f r)\<rparr>)"

text \<open>\<open>INSERT OR IGNORE INTO tx (txid, height, time, bytes, has_code, executable,
  executed, indexed) VALUES (?, ?, null, null, 0, 0, 0, 0)\<close>: the second parameter is
  bound to column \<open>height\<close>.\<close>

definition addNewTransactionStmt :: "txid \<Rightarrow> int \<Rightarrow> state \<Rightarrow> state" where
  "addNewTransactionStmt t p2 s =
     (case tx_table s t of
        Some r \<Rightarrow> s
      | None \<Rightarrow> s\<lparr>tx_table := (tx_table s)(t \<mapsto>
          \<lparr> height = Some p2, time = None, bytes = None, has_code = 0,
            executable = 0, executed = 0, indexed = 0 \<rparr>)\<rparr>)"

definition setTransactionBytesStmt :: "string \<Rightarrow> txid \<Rightarrow> state \<Rightarrow> state" where
  "setTransactionBytesStmt b t = update_tx t (\<lambda>r. r\<lparr>bytes := Some b\<rparr>)"

definition setTransactionExecutableStmt :: "int \<Rightarrow> txid \<Rightarrow> state \<Rightarrow> state" where
  "setTransactionExecutableStmt v t = update_tx t (\<lambda>r. r\<lparr>executable := v\<rparr>)"

definition setTransactionHasCodeStmt :: "int \<Rightarrow> txid \<Rightarrow> state \<Rightarrow> state" where
  "setTransactionHasCodeStmt v t = update_tx t (\<lambda>r. r\<lparr>has_code := v\<rparr>)"

definition setTransactionExecutedStmt :: "int \<Rightarrow> txid \<Rightarrow> state \<Rightarrow> state" where
  "setTransactionExecutedStmt v t = update_tx t (\<lambda>r. r\<lparr>executed := v\<rparr>)"

definition setTransactionIndexedStmt :: "int \<Rightarrow> txid \<Rightarrow> state \<Rightarrow> state" where
  "setTransactionIndexedStmt v t = update_tx t (\<lambda>r. r\<lparr>indexed := v\<rparr>)"

text \<open>\<open>hasTransaction\<close>, and the getters that return \<open>row && row[0]\<close>: \<open>None\<close> is
  \<open>undefined\<close> (no row), \<open>Some None\<close> is \<open>null\<close>.\<close>

definition hasTransaction :: "state \<Rightarrow> txid \<Rightarrow> bool" where
  "hasTransaction s t = (tx_table s t \<noteq> None)"

definition getTransactionTime :: "state \<Rightarrow> txid \<Rightarrow> int option option" where
  "getTransactionTime s t = map_option time (tx_table s t)"

definition getTransactionHeight :: "state \<Rightarrow> txid \<Rightarrow> int option option" where
  "getTransactionHeight s t = map_option height (tx_table s t)"

subsection \<open>addNewTransaction\<close>

text \<open>\<open>now\<close> is \<open>Math.round(Date.now() / 1000)\<close>, read from the clock.\<close>

definition addNewTransaction :: "int \<Rightarrow> txid \<Rightarrow> state \<Rightarrow> state" where
  "addNewTransaction now t s =
     (if hasTransaction s t then s
      else
        let s1 = addNewTransactionStmt t now s;
            s2 = emit (AddTransaction t) s1
        in if unexecuted_get s2 t \<noteq> None then s2
           else (case new_UnexecutedTx t False None s2 of
                   (a, s3) \<Rightarrow> unexecuted_set t a s3))"

subsection \<open>The readiness evaluator\<close>

text \<open>The predicate computed by \<open>_checkExecutability\<close> when no override is given.\<close>

definition ready :: "state \<Rightarrow> UnexecutedTx \<Rightarrow> bool" where
  "ready s n =
     (downloaded n \<and>
      (hasCode n \<noteq> Some True \<or> txid n \<in> trustlist s) \<and>
      txid n \<notin> banlist s \<and>
      list_all (\<lambda>u. queuedForExecution (node_at s u)) (upstream n))"

text \<open>The value \<open>_checkExecutability\<close> compares the flag with: the override when one
  is given, the predicate otherwise.\<close>

definition wanted_flag :: "bool option \<Rightarrow> state \<Rightarrow> addr \<Rightarrow> bool" where
  "wanted_flag force s a = (case force of Some b \<Rightarrow> b | None \<Rightarrow> ready s (node_at s a))"

text \<open>The part of the method after the comparison: adjust the counter, store the flag,
  and announce a node that has become ready and has no upstream node.\<close>

definition install_flag :: "addr \<Rightarrow> bool \<Rightarrow> state \<Rightarrow> state" where
  "install_flag a q s =
     (let n = node_at s a;
          s1 = s\<lparr>numQueuedForExecution :=
                  (if q then numQueuedForExecution s + 1 else numQueuedForExecution s - 1)\<rparr>;
          s2 = set_node a (n\<lparr>queuedForExecution := q\<rparr>) s1
      in if upstream n = [] \<and> q then emit (ReadyToExecute (txid n)) s2 else s2)"

text \<open>\<open>_checkExecutability (tx, forceQueuedForExecution)\<close>. The method calls itself
  for every downstream node whenever the flag changes. The first argument is the number
  of nested calls the JavaScript call stack still holds; when it is exhausted the engine
  throws \<open>RangeError\<close>. The sets \<open>downstream\<close> are not changed while the loop runs.\<close>

fun checkExecutability :: "nat \<Rightarrow> addr \<Rightarrow> bool option \<Rightarrow> state \<Rightarrow> error + state" where
  "checkExecutability 0 a force s = Inl RangeError"
| "checkExecutability (Suc depth) a force s =
     (if wanted_flag force s a = queuedForExecution (node_at s a) then Inr s
      else forEach (\<lambda>d. checkExecutability depth d None) (downstream (node_at s a))
             (install_flag a (wanted_flag force s a) s))"

subsection \<open>Spends\<close>

text \<open>\<open>INSERT OR REPLACE INTO spends\<close> and \<open>INSERT OR IGNORE INTO spends\<close>.\<close>

definition setSpendStmt :: "string \<Rightarrow> txid \<Rightarrow> state \<Rightarrow> state" where
  "setSpendStmt location t s = s\<lparr>spends_table := (spends_table s)(location \<mapsto> Some t)\<rparr>"

definition setUnspentStmt :: "string \<Rightarrow> state \<Rightarrow> state" where
  "setUnspentStmt location s =
     (case spends_table s location of
        Some v \<Rightarrow> s
      | None \<Rightarrow> s\<lparr>spends_table := (spends_table s)(location \<mapsto> None)\<rparr>)"

definition store_spends :: "txid \<Rightarrow> string list \<Rightarrow> string list \<Rightarrow> state \<Rightarrow> state" where
  "store_spends t inputs outputs s =
     fold setUnspentStmt outputs (fold (\<lambda>location. setSpendStmt location t) inputs s)"

subsection \<open>storeParsedNonExecutableTransaction\<close>

text \<open>\<open>downtx.upstream.delete(tx)\<close> for one downstream node.\<close>

definition detach :: "addr \<Rightarrow> addr \<Rightarrow> state \<Rightarrow> state" where
  "detach a d s = set_node d ((node_at s d)\<lparr>upstream := set_delete a (upstream (node_at s d))\<rparr>) s"

definition storeParsedNonExecutableTransaction ::
  "nat \<Rightarrow> txid \<Rightarrow> string \<Rightarrow> string list \<Rightarrow> string list \<Rightarrow> state \<Rightarrow> error + state" where
  "storeParsedNonExecutableTransaction depth t hex inputs outputs =
     transaction (\<lambda>s0.
       let s1 = setTransactionBytesStmt hex t s0;
           s2 = setTransactionExecutableStmt 0 t s1;
           s3 = store_spends t inputs outputs s2
       in case unexecuted_get s3 t of
            None \<Rightarrow> Inl TypeError
          | Some a \<Rightarrow>
              let s4 = set_node a ((node_at s3 a)\<lparr>downloaded := True\<rparr>) s3;
                  s5 = unexecuted_delete t s4;
                  ds = downstream (node_at s5 a);
                  s6 = fold (detach a) ds s5
              in forEach (\<lambda>d. checkExecutability depth d None) ds s6)"

subsection \<open>setTransactionExecutionFailed\<close>

text \<open>What \<open>getTransactionHex\<close> returns: \<open>undefined\<close> without a row, \<open>null\<close> for a
  row without bytes, the hex string otherwise.\<close>

datatype rawtx = NoRow | NullBytes | Hex string

definition getTransactionHex :: "state \<Rightarrow> txid \<Rightarrow> rawtx" where
  "getTransactionHex s t =
     (case tx_table s t of
        None \<Rightarrow> NoRow
      | Some r \<Rightarrow> (case bytes r of None \<Rightarrow> NullBytes | Some b \<Rightarrow> Hex b))"

text \<open>The downstream nodes of a failed transaction that was not executable are only
  notified.\<close>

definition notify_if_ready :: "addr \<Rightarrow> state \<Rightarrow> state" where
  "notify_if_ready d s =
     (let n = node_at s d
      in if queuedForExecution n \<and> upstream n = [] then emit (ReadyToExecute (txid n)) s
         else s)"

text \<open>The part of \<open>setTransactionExecutionFailed\<close> and of \<open>storeExecutedTransaction\<close>
  that takes the node out of the graph: detach it from its downstream nodes, delete it
  from the map, adjust the counter, clear the flag.\<close>

definition remove_node :: "txid \<Rightarrow> addr \<Rightarrow> state \<Rightarrow> state" where
  "remove_node t a s =
     (let s1 = fold (detach a) (downstream (node_at s a)) s;
          s2 = unexecuted_delete t s1;
          s3 = (if queuedForExecution (node_at s2 a)
                then s2\<lparr>numQueuedForExecution := numQueuedForExecution s2 - 1\<rparr> else s2)
      in set_node a ((node_at s3 a)\<lparr>queuedForExecution := False\<rparr>) s3)"

text \<open>\<open>setTransactionExecutionFailed (txid)\<close>. The parameter \<open>metadata\<close> says whether
  \<open>Run.util.metadata\<close> (of the run-sdk package) accepts what \<open>getTransactionHex\<close>
  returned, that is, does not throw. The second function is the loop over
  \<open>tx.downstream\<close> of the executable case.\<close>

function setTransactionExecutionFailed :: "(rawtx \<Rightarrow> bool) \<Rightarrow> txid \<Rightarrow> state \<Rightarrow> state"
  and failDownstream :: "(rawtx \<Rightarrow> bool) \<Rightarrow> txid list \<Rightarrow> state \<Rightarrow> state" where
  "setTransactionExecutionFailed metadata t s =
     (case unexecuted_get s t of
        None \<Rightarrow> s
      | Some a \<Rightarrow>
          let s0 = begin_transaction s;
              s1 = setTransactionExecutableStmt 0 t s0;
              s2 = setTransactionExecutedStmt 1 t s1;
              s3 = setTransactionIndexedStmt 0 t s2;
              s4 = remove_node t a s3;
              ds = downstream (node_at s4 a)
          in commit_transaction
               (if metadata (getTransactionHex s4 t)
                then failDownstream metadata (map (\<lambda>d. txid (node_at s4 d)) ds) s4
                else fold notify_if_ready ds s4))"
| "failDownstream metadata [] s = s"
| "failDownstream metadata (d # ds) s =
     failDownstream metadata ds (setTransactionExecutionFailed metadata d s)"
  by pat_completeness auto

lemma length_delete_le: "length (AList.delete t al) \<le> length al"
  by (induction al) auto

lemma length_delete_less: "map_of al t = Some a \<Longrightarrow> length (AList.delete t al) < length al"
  by (induction al) (auto simp: less_Suc_eq_le length_delete_le split: if_splits)

lemma unexecuted_update_tx [simp]: "unexecuted (update_tx t f s) = unexecuted s"
  by (simp add: update_tx_def split: option.splits)

lemma unexecuted_set_node [simp]: "unexecuted (set_node a n s) = unexecuted s"
  by (simp add: set_node_def)

lemma unexecuted_detach [simp]: "unexecuted (detach a d s) = unexecuted s"
  by (simp add: detach_def)

lemma unexecuted_fold_detach [simp]: "unexecuted (fold (detach a) ds s) = unexecuted s"
  by (induction ds arbitrary: s) auto

lemma unexecuted_remove_node [simp]:
  "unexecuted (remove_node t a s) = AList.delete t (unexecuted s)"
  by (simp add: remove_node_def Let_def unexecuted_delete_def)

lemma unexecuted_notify [simp]: "unexecuted (notify_if_ready d s) = unexecuted s"
  by (simp add: notify_if_ready_def Let_def emit_def)

lemma unexecuted_fold_notify [simp]: "unexecuted (fold notify_if_ready ds s) = unexecuted s"
  by (induction ds arbitrary: s) auto

lemma unexecuted_begin [simp]: "unexecuted (begin_transaction s) = unexecuted s"
  by (simp add: begin_transaction_def)

lemma unexecuted_commit [simp]: "unexecuted (commit_transaction s) = unexecuted s"
  by (simp add: commit_transaction_def)




lemma setTransactionExecutionFailed_shrinks:
  "setTransactionExecutionFailed_failDownstream_dom (Inl (m, t, s)) \<Longrightarrow>
     length (unexecuted (setTransactionExecutionFailed m t s)) \<le> length (unexecuted s)"
  "setTransactionExecutionFailed_failDownstream_dom (Inr (m, ts, s)) \<Longrightarrow>
     length (unexecuted (failDownstream m ts s)) \<le> length (unexecuted s)"
proof (induction m t s and m ts s rule: setTransactionExecutionFailed_failDownstream.pinduct)
  case (1 m t s)
  show ?case
  proof (cases "unexecuted_get s t")
    case None
    then show ?thesis using 1(1) by (simp add: setTransactionExecutionFailed.psimps)
  next
    case (Some a)
    define s4 where "s4 = remove_node t a (setTransactionIndexedStmt 0 t
      (setTransactionExecutedStmt 1 t (setTransactionExecutableStmt 0 t (begin_transaction s))))"
    have len4: "length (unexecuted s4) \<le> length (unexecuted s)"
      by (simp add: s4_def setTransactionExecutableStmt_def setTransactionExecutedStmt_def
          setTransactionIndexedStmt_def length_delete_le)
    show ?thesis
    proof (cases "m (getTransactionHex s4 t)")
      case True
      have "length (unexecuted (failDownstream m
              (map (\<lambda>d. txid (node_at s4 d)) (downstream (node_at s4 a))) s4))
            \<le> length (unexecuted s4)"
        using 1(2)[OF Some refl refl refl refl refl refl] True unfolding s4_def by blast
      moreover have "setTransactionExecutionFailed m t s = commit_transaction (failDownstream m
              (map (\<lambda>d. txid (node_at s4 d)) (downstream (node_at s4 a))) s4)"
        using 1(1) Some True
        by (simp add: setTransactionExecutionFailed.psimps Let_def s4_def)
      ultimately show ?thesis using len4 by simp
    next
      case False
      have "setTransactionExecutionFailed m t s =
              commit_transaction (fold notify_if_ready (downstream (node_at s4 a)) s4)"
        using 1(1) Some False
        by (simp add: setTransactionExecutionFailed.psimps Let_def s4_def)
      then show ?thesis using len4 by simp
    qed
  qed
next
  case (2 m s)
  then show ?case by (simp add: failDownstream.psimps)
next
  case (3 m d ds s)
  have "failDownstream m (d # ds) s = failDownstream m ds (setTransactionExecutionFailed m d s)"
    using 3(1) by (simp add: failDownstream.psimps)
  then show ?case using 3(2) 3(3) by simp
qed

termination setTransactionExecutionFailed
proof (relation "inv_image (less_than <*lex*> less_than)
    (\<lambda>x. case x of Inl (m, t, s) \<Rightarrow> (length (unexecuted s), 0)
                  | Inr (m, ts, s) \<Rightarrow> (length (unexecuted s), Suc (length ts)))", goal_cases)
  case 1
  then show ?case by (intro wf_inv_image wf_lex_prod wf_less_than)
next
  case (2 m t s a s0 s1 s2 s3 s4 ds)
  then show ?case
    by (simp add: setTransactionExecutableStmt_def setTransactionExecutedStmt_def
        setTransactionIndexedStmt_def unexecuted_get_def length_delete_less)
next
  case (3 m d ds s)
  then show ?case by simp
next
  case (4 m d ds s)
  then show ?case
    using setTransactionExecutionFailed_shrinks(1)[OF 4] by (auto simp: le_less)
qed

subsection \<open>deps\<close>

text \<open>\<open>INSERT OR IGNORE INTO deps (up, down)\<close>, \<open>SELECT down FROM deps WHERE up = ?\<close>,
  \<open>DELETE FROM deps WHERE down = ?\<close>. SQL leaves the order of the selected rows open;
  the model returns them in insertion order.\<close>

definition addDepStmt :: "txid \<Rightarrow> txid \<Rightarrow> state \<Rightarrow> state" where
  "addDepStmt up down s =
     (if (up, down) \<in> set (deps_table s) then s
      else s\<lparr>deps_table := deps_table s @ [(up, down)]\<rparr>)"

definition getDownstreamStmt :: "state \<Rightarrow> txid \<Rightarrow> txid list" where
  "getDownstreamStmt s t = map snd (filter (\<lambda>r. fst r = t) (deps_table s))"

definition deleteDepsStmt :: "txid \<Rightarrow> state \<Rightarrow> state" where
  "deleteDepsStmt t s = s\<lparr>deps_table := filter (\<lambda>r. snd r \<noteq> t) (deps_table s)\<rparr>"

text \<open>\<open>getUpstreamUnexecutedStmt\<close>: the \<open>up\<close> ends of the rows into \<open>t\<close> whose own
  row in \<open>tx\<close> has \<open>executable = 1 AND executed = 0\<close>.\<close>

definition getUpstreamUnexecutedStmt :: "state \<Rightarrow> txid \<Rightarrow> txid list" where
  "getUpstreamUnexecutedStmt s t =
     filter (\<lambda>u. case tx_table s u of
                    None \<Rightarrow> False
                  | Some r \<Rightarrow> executable r = 1 \<and> executed r = 0)
            (map fst (filter (\<lambda>r. snd r = t) (deps_table s)))"

text \<open>\<open>deptx.downstream.add(tx); tx.upstream.add(deptx)\<close>, with \<open>da\<close> the upstream
  node and \<open>a\<close> the downstream node.\<close>

definition link :: "addr \<Rightarrow> addr \<Rightarrow> state \<Rightarrow> state" where
  "link da a s =
     (let s1 = set_node da ((node_at s da)\<lparr>downstream := set_add a (downstream (node_at s da))\<rparr>) s
      in set_node a ((node_at s1 a)\<lparr>upstream := set_add da (upstream (node_at s1 a))\<rparr>) s1)"

subsection \<open>storeParsedExecutableTransaction\<close>

text \<open>The loop over \<open>deps\<close>. The result says whether the loop left the method by
  \<open>return\<close> after marking the transaction as failed.\<close>

fun store_deps ::
  "(rawtx \<Rightarrow> bool) \<Rightarrow> int \<Rightarrow> txid \<Rightarrow> addr \<Rightarrow> txid list \<Rightarrow> state \<Rightarrow> error + (bool \<times> state)" where
  "store_deps metadata now t a [] s = Inr (False, s)"
| "store_deps metadata now t a (dep # deps) s =
     (let s1 = addNewTransaction now dep s;
          s2 = addDepStmt dep t s1
      in case unexecuted_get s2 dep of
           Some da \<Rightarrow> store_deps metadata now t a deps (link da a s2)
         | None \<Rightarrow>
             (case tx_table s2 dep of
                None \<Rightarrow> Inl TypeError
              | Some r \<Rightarrow>
                  if indexed r = 0
                  then Inr (True, setTransactionExecutionFailed metadata t s2)
                  else store_deps metadata now t a deps s2))"

definition storeParsedExecutableTransaction ::
  "(rawtx \<Rightarrow> bool) \<Rightarrow> int \<Rightarrow> nat \<Rightarrow> txid \<Rightarrow> string \<Rightarrow> bool \<Rightarrow> txid list \<Rightarrow>
     string list \<Rightarrow> string list \<Rightarrow> state \<Rightarrow> error + state" where
  "storeParsedExecutableTransaction metadata now depth t hex hc deps inputs outputs =
     transaction (\<lambda>s0.
       let s1 = setTransactionBytesStmt hex t s0;
           s2 = setTransactionExecutableStmt 1 t s1;
           s3 = setTransactionHasCodeStmt (if hc then 1 else 0) t s2;
           s4 = store_spends t inputs outputs s3
       in case unexecuted_get s4 t of
            None \<Rightarrow> Inl TypeError
          | Some a \<Rightarrow>
              let s5 = set_node a ((node_at s4 a)\<lparr>hasCode := Some hc, downloaded := True\<rparr>) s4
              in case store_deps metadata now t a deps s5 of
                   Inl e \<Rightarrow> Inl e
                 | Inr (True, s6) \<Rightarrow> Inr s6
                 | Inr (False, s6) \<Rightarrow> checkExecutability depth a None s6)"

subsection \<open>storeExecutedTransaction\<close>

text \<open>The result bundle of the executor. The values of \<open>cache\<close> are kept as the
  strings \<open>JSON.stringify\<close> makes of them. \<open>submitToHook\<close> returns at once, since
  \<open>config.js\<close> exports no \<open>WEBHOOK_URL\<close>.\<close>

record exec_result =
  cache :: "(string \<times> string) list"
  classes :: "(string \<times> string) list"
  locks :: "(string \<times> string) list"
  scripthashes :: "(string \<times> string) list"

definition startsWith :: "string \<Rightarrow> string \<Rightarrow> bool" where
  "startsWith key p = (take (length p) key = p)"

definition store_cache_entry :: "string \<times> string \<Rightarrow> state \<Rightarrow> state" where
  "store_cache_entry e s =
     (let key = fst e; v = snd e
      in if startsWith key ''jig://'' then
           (let location = drop 6 key
            in case jig_table s location of
                 Some r \<Rightarrow> s
               | None \<Rightarrow> s\<lparr>jig_table := (jig_table s)(location \<mapsto>
                   \<lparr> jig_state = v, jig_class = None, jig_lock = None, jig_scripthash = None \<rparr>)\<rparr>)
         else if startsWith key ''berry://'' then
           (let location = drop 8 key
            in case berry_table s location of
                 Some r \<Rightarrow> s
               | None \<Rightarrow> s\<lparr>berry_table := (berry_table s)(location \<mapsto> v)\<rparr>)
         else s)"

definition update_jig :: "string \<Rightarrow> (jig_row \<Rightarrow> jig_row) \<Rightarrow> state \<Rightarrow> state" where
  "update_jig location f s =
     (case jig_table s location of
        None \<Rightarrow> s
      | Some r \<Rightarrow> s\<lparr>jig_table := (jig_table s)(location \<mapsto> f r)\<rparr>)"

definition storeExecutedTransaction :: "txid \<Rightarrow> exec_result \<Rightarrow> state \<Rightarrow> state" where
  "storeExecutedTransaction t result s =
     (case unexecuted_get s t of
        None \<Rightarrow> s
      | Some a \<Rightarrow>
          let s0 = begin_transaction s;
              s1 = setTransactionExecutedStmt 1 t s0;
              s2 = setTransactionIndexedStmt 1 t s1;
              s3 = fold store_cache_entry (cache result) s2;
              s4 = fold (\<lambda>e. update_jig (fst e) (\<lambda>r. r\<lparr>jig_class := Some (snd e)\<rparr>)) (classes result) s3;
              s5 = fold (\<lambda>e. update_jig (fst e) (\<lambda>r. r\<lparr>jig_lock := Some (snd e)\<rparr>)) (locks result) s4;
              s6 = fold (\<lambda>e. update_jig (fst e) (\<lambda>r. r\<lparr>jig_scripthash := Some (snd e)\<rparr>))
                     (scripthashes result) s5;
              s7 = remove_node t a s6
          in commit_transaction (fold notify_if_ready (downstream (node_at s7 a)) s7))"

subsection \<open>deleteTransaction\<close>

text \<open>SQLite's \<open>LIKE\<close>: \<open>%\<close> matches any run of characters, \<open>_\<close> any one character,
  and ASCII letters match without regard to case. The statements that delete by
  location use the pattern \<open>txid || '%'\<close>.\<close>

definition ascii_lower :: "char \<Rightarrow> char" where
  "ascii_lower c =
     (if c \<in> set ''ABCDEFGHIJKLMNOPQRSTUVWXYZ'' then char_of (of_char c + (32::nat)) else c)"

fun like :: "string \<Rightarrow> string \<Rightarrow> bool" where
  "like [] x = (x = [])"
| "like (p # ps) x =
     (if p = CHR ''%'' then
        (like ps x \<or> (case x of [] \<Rightarrow> False | c # cs \<Rightarrow> like (p # ps) cs))
      else
        (case x of
           [] \<Rightarrow> False
         | c # cs \<Rightarrow> (p = CHR ''_'' \<or> ascii_lower p = ascii_lower c) \<and> like ps cs))"

definition delete_like :: "txid \<Rightarrow> (string \<rightharpoonup> 'v) \<Rightarrow> (string \<rightharpoonup> 'v)" where
  "delete_like t tbl = (\<lambda>location. if like (t @ ''%'') location then None else tbl location)"

definition deleteTransactionStmt :: "txid \<Rightarrow> state \<Rightarrow> state" where
  "deleteTransactionStmt t s = s\<lparr>tx_table := (tx_table s)(t := None)\<rparr>"

definition deleteJigStatesStmt :: "txid \<Rightarrow> state \<Rightarrow> state" where
  "deleteJigStatesStmt t s = s\<lparr>jig_table := delete_like t (jig_table s)\<rparr>"

definition deleteBerryStatesStmt :: "txid \<Rightarrow> state \<Rightarrow> state" where
  "deleteBerryStatesStmt t s = s\<lparr>berry_table := delete_like t (berry_table s)\<rparr>"

definition deleteSpendsStmt :: "txid \<Rightarrow> state \<Rightarrow> state" where
  "deleteSpendsStmt t s = s\<lparr>spends_table := delete_like t (spends_table s)\<rparr>"

text \<open>\<open>UPDATE spends SET spend_txid = null WHERE spend_txid = ?\<close>.\<close>

definition unspendOutputsStmt :: "txid \<Rightarrow> state \<Rightarrow> state" where
  "unspendOutputsStmt t s =
     s\<lparr>spends_table := (\<lambda>location. case spends_table s location of
                                        None \<Rightarrow> None
                                      | Some v \<Rightarrow> if v = Some t then Some None else Some v)\<rparr>"

text \<open>The statements and the in-memory part of \<open>deleteTransaction\<close> before it
  descends: the node leaves the map, and stays in the sets of its neighbours.\<close>

definition delete_one :: "txid \<Rightarrow> state \<Rightarrow> state" where
  "delete_one t s =
     (let s1 = deleteTransactionStmt t s;
          s2 = deleteJigStatesStmt t s1;
          s3 = deleteBerryStatesStmt t s2;
          s4 = deleteSpendsStmt t s3;
          s5 = unspendOutputsStmt t s4;
          s6 = deleteDepsStmt t s5;
          s7 = (case unexecuted_get s6 t of
                  None \<Rightarrow> s6
                | Some a \<Rightarrow>
                    if queuedForExecution (node_at s6 a)
                    then s6\<lparr>numQueuedForExecution := numQueuedForExecution s6 - 1\<rparr> else s6);
          s8 = unexecuted_delete t s7
      in emit (DeleteTransaction t) s8)"

text \<open>\<open>deleteTransaction (txid, deleted = new Set())\<close>. The set \<open>deleted\<close> is shared by
  all nested calls, so it is passed through with the state.\<close>

function deleteTransactionRec :: "txid \<Rightarrow> state \<times> txid set \<Rightarrow> state \<times> txid set"
  and deleteDownstream :: "txid list \<Rightarrow> state \<times> txid set \<Rightarrow> state \<times> txid set" where
  "deleteTransactionRec t (s, deleted) =
     (if t \<in> deleted then (s, deleted)
      else
        let s1 = delete_one t (begin_transaction s);
            r = deleteDownstream (getDownstreamStmt s1 t) (s1, insert t deleted)
        in (commit_transaction (fst r), snd r))"
| "deleteDownstream [] sd = sd"
| "deleteDownstream (d # ds) sd = deleteDownstream ds (deleteTransactionRec d sd)"
  by pat_completeness auto

definition downs :: "state \<Rightarrow> txid set" where
  "downs s = snd ` set (deps_table s)"

lemma finite_downs: "finite (downs s)"
  by (simp add: downs_def)

lemma downs_commit [simp]: "downs (commit_transaction s) = downs s"
  by (simp add: downs_def commit_transaction_def)

lemma deps_table_delete_one:
  "deps_table (delete_one t (begin_transaction s)) = filter (\<lambda>r. snd r \<noteq> t) (deps_table s)"
  by (simp add: delete_one_def Let_def emit_def unexecuted_delete_def deleteDepsStmt_def
      unspendOutputsStmt_def deleteSpendsStmt_def deleteBerryStatesStmt_def deleteJigStatesStmt_def
      deleteTransactionStmt_def begin_transaction_def split: option.splits)

lemma downs_delete_one: "downs (delete_one t (begin_transaction s)) = downs s - {t}"
  by (auto simp: downs_def deps_table_delete_one)

lemma getDownstreamStmt_downs: "set (getDownstreamStmt s t) \<subseteq> downs s"
  by (auto simp: getDownstreamStmt_def downs_def)

lemma deleteTransactionRec_mono:
  "deleteTransactionRec_deleteDownstream_dom (Inl (t, sd)) \<Longrightarrow>
     downs (fst (deleteTransactionRec t sd)) \<subseteq> downs (fst sd) \<and> snd sd \<subseteq> snd (deleteTransactionRec t sd)"
  "deleteTransactionRec_deleteDownstream_dom (Inr (ts, sd)) \<Longrightarrow>
     downs (fst (deleteDownstream ts sd)) \<subseteq> downs (fst sd) \<and> snd sd \<subseteq> snd (deleteDownstream ts sd)"
proof (induction t sd and ts sd rule: deleteTransactionRec_deleteDownstream.pinduct)
  case (1 t s deleted)
  show ?case
  proof (cases "t \<in> deleted")
    case True
    then show ?thesis using 1(1) by (simp add: deleteTransactionRec.psimps)
  next
    case False
    define s1 where "s1 = delete_one t (begin_transaction s)"
    define r where "r = deleteDownstream (getDownstreamStmt s1 t) (s1, insert t deleted)"
    have eq: "deleteTransactionRec t (s, deleted) = (commit_transaction (fst r), snd r)"
      using 1(1) False by (simp add: deleteTransactionRec.psimps Let_def s1_def r_def)
    have ih: "downs (fst r) \<subseteq> downs s1 \<and> insert t deleted \<subseteq> snd r"
      using 1(2)[OF False refl] by (simp add: r_def s1_def)
    have "downs s1 \<subseteq> downs s" by (auto simp: s1_def downs_delete_one)
    then show ?thesis using eq ih by auto
  qed
next
  case (2 sd)
  then show ?case by (simp add: deleteDownstream.psimps)
next
  case (3 d ds sd)
  have eq: "deleteDownstream (d # ds) sd = deleteDownstream ds (deleteTransactionRec d sd)"
    using 3(1) by (simp add: deleteDownstream.psimps)
  show ?case using 3(2) 3(3) unfolding eq by blast
qed

termination deleteTransactionRec
proof (relation "inv_image (less_than <*lex*> less_than)
    (\<lambda>x. case x of
            Inl (t, sd) \<Rightarrow> (card (insert t (downs (fst sd)) - snd sd), 0)
          | Inr (ts, sd) \<Rightarrow> (card ((set ts \<union> downs (fst sd)) - snd sd), Suc (length ts)))",
    goal_cases)
  case 1
  then show ?case by (intro wf_inv_image wf_lex_prod wf_less_than)
next
  case (2 t s deleted s1)
  have sub: "set (getDownstreamStmt s1 t) \<union> downs s1 \<subseteq> downs s - {t}"
    using getDownstreamStmt_downs[of s1 t] by (auto simp: 2 downs_delete_one)
  have "(set (getDownstreamStmt s1 t) \<union> downs s1) - insert t deleted
          \<subset> insert t (downs s) - deleted"
    using sub 2(1) by auto
  then have "card ((set (getDownstreamStmt s1 t) \<union> downs s1) - insert t deleted)
          < card (insert t (downs s) - deleted)"
    by (intro psubset_card_mono) (auto simp: finite_downs)
  then show ?case by simp
next
  case (3 d ds sd)
  have "card (insert d (downs (fst sd)) - snd sd)
          \<le> card ((set (d # ds) \<union> downs (fst sd)) - snd sd)"
    by (intro card_mono) (auto simp: finite_downs)
  then show ?case by (auto simp: le_less)
next
  case (4 d ds sd)
  have "(set ds \<union> downs (fst (deleteTransactionRec d sd))) - snd (deleteTransactionRec d sd)
          \<subseteq> (set (d # ds) \<union> downs (fst sd)) - snd sd"
    using deleteTransactionRec_mono(1)[OF 4] by auto
  then have "card ((set ds \<union> downs (fst (deleteTransactionRec d sd))) - snd (deleteTransactionRec d sd))
          \<le> card ((set (d # ds) \<union> downs (fst sd)) - snd sd)"
    by (intro card_mono) (auto simp: finite_downs)
  then show ?case by (auto simp: le_less)
qed

definition deleteTransaction :: "txid \<Rightarrow> state \<Rightarrow> state" where
  "deleteTransaction t s = fst (deleteTransactionRec t (s, {}))"

subsection \<open>unindexTransaction\<close>

text \<open>The loop that rebuilds the upstream edges of the resurrected node \<open>a\<close>.\<close>

definition link_upstream :: "addr \<Rightarrow> txid \<Rightarrow> state \<Rightarrow> state" where
  "link_upstream a u s =
     (case unexecuted_get s u of
        None \<Rightarrow> s
      | Some ua \<Rightarrow>
          let s1 = set_node a ((node_at s a)\<lparr>upstream := set_add ua (upstream (node_at s a))\<rparr>) s
          in set_node ua ((node_at s1 ua)\<lparr>downstream := set_add a (downstream (node_at s1 ua))\<rparr>) s1)"

text \<open>\<open>unindexTransaction (txid)\<close>: nested calls of the method and of
  \<open>_checkExecutability\<close> share the call stack. Reading \<open>[0]\<close> of the missing row of an
  unknown txid throws.\<close>

fun unindexTransaction :: "nat \<Rightarrow> txid \<Rightarrow> state \<Rightarrow> error + state" where
  "unindexTransaction 0 t s = Inl RangeError"
| "unindexTransaction (Suc depth) t s =
     (case unexecuted_get s t of
        Some a \<Rightarrow> checkExecutability depth a (Some False) s
      | None \<Rightarrow>
          transaction (\<lambda>s0.
            case tx_table s0 t of
              None \<Rightarrow> Inl TypeError
            | Some r \<Rightarrow>
                if indexed r \<noteq> 0 then
                  (let s1 = setTransactionExecutedStmt 0 t s0;
                       s2 = setTransactionIndexedStmt 0 t s1;
                       s3 = deleteJigStatesStmt t s2;
                       s4 = deleteBerryStatesStmt t s3;
                       dl = (bytes r \<noteq> None);
                       hc = (if dl then Some (has_code r \<noteq> 0) else None)
                   in case new_UnexecutedTx t dl hc s4 of
                        (a, s5) \<Rightarrow>
                          let s6 = fold (link_upstream a) (getUpstreamUnexecutedStmt s5 t) s5;
                              s7 = unexecuted_set t a s6
                          in case forEach (unindexTransaction depth) (getDownstreamStmt s7 t) s7 of
                               Inl e \<Rightarrow> Inl e
                             | Inr s8 \<Rightarrow> Inr (emit (UnindexTransaction t) s8))
                else Inr s0) s)"

subsection \<open>addDep and addMissingDeps\<close>

definition addDep :: "(rawtx \<Rightarrow> bool) \<Rightarrow> int \<Rightarrow> addr \<Rightarrow> txid \<Rightarrow> state \<Rightarrow> error + state" where
  "addDep metadata now a dep s =
     (let s1 = addNewTransaction now dep s;
          s2 = addDepStmt dep (txid (node_at s1 a)) s1
      in case unexecuted_get s2 dep of
           Some da \<Rightarrow> Inr (link da a s2)
         | None \<Rightarrow>
             (case tx_table s2 dep of
                None \<Rightarrow> Inl TypeError
              | Some r \<Rightarrow>
                  if indexed r = 0
                  then Inr (setTransactionExecutionFailed metadata (txid (node_at s2 a)) s2)
                  else Inr s2))"

definition addMissingDeps ::
  "(rawtx \<Rightarrow> bool) \<Rightarrow> int \<Rightarrow> nat \<Rightarrow> txid \<Rightarrow> txid list \<Rightarrow> state \<Rightarrow> error + state" where
  "addMissingDeps metadata now depth t deps s =
     (case unexecuted_get s t of
        None \<Rightarrow> Inr s
      | Some a \<Rightarrow>
          transaction (\<lambda>s0.
            case forEach (addDep metadata now a) deps s0 of
              Inl e \<Rightarrow> Inl e
            | Inr s1 \<Rightarrow> checkExecutability depth a None s1) s)"

subsection \<open>trust and untrust\<close>

text \<open>\<open>INSERT OR REPLACE INTO trust (txid, value) VALUES (?, ?)\<close>.\<close>

definition setTrustedStmt :: "txid \<Rightarrow> int \<Rightarrow> state \<Rightarrow> state" where
  "setTrustedStmt t v s = s\<lparr>trust_table := (trust_table s)(t \<mapsto> v)\<rparr>"






subsection \<open>ban and unban\<close>



section \<open>Properties\<close>

subsection \<open>Insertion time of a new transaction\<close>

text \<open>
  C5. For a txid that has no row yet, \<open>addNewTransaction\<close> is expected to store the
  insertion time in column \<open>time\<close>, so that \<open>getTransactionTime\<close> returns it. The
  statement binds its second parameter to column \<open>height\<close> and writes \<open>null\<close> into
  \<open>time\<close>: right after the call \<open>getTransactionTime\<close> returns \<open>null\<close>, and the clock
  value is what \<open>getTransactionHeight\<close> returns. The node that is created for a txid
  that is not in the map is not downloaded and has \<open>hasCode = null\<close>.
\<close>

lemma addNewTransaction_row:
  assumes "\<not> hasTransaction s t"
  shows "tx_table (addNewTransaction now t s) t =
           Some \<lparr> height = Some now, time = None, bytes = None, has_code = 0,
                  executable = 0, executed = 0, indexed = 0 \<rparr>"
  using assms
  by (simp add: addNewTransaction_def Let_def addNewTransactionStmt_def hasTransaction_def
      emit_def unexecuted_set_def new_UnexecutedTx_def unexecuted_get_def)

lemma addNewTransaction_node:
  assumes "\<not> hasTransaction s t" and "unexecuted_get s t = None"
  shows "unexecuted_get (addNewTransaction now t s) t = Some (length (heap s)) \<and>
         node_at (addNewTransaction now t s) (length (heap s)) =
           \<lparr> txid = t, downloaded = False, hasCode = None, queuedForExecution = False,
             upstream = [], downstream = [] \<rparr>"
  using assms
  by (simp add: addNewTransaction_def Let_def addNewTransactionStmt_def hasTransaction_def
      emit_def unexecuted_set_def new_UnexecutedTx_def unexecuted_get_def node_at_def update_conv')

theorem addNewTransaction_time_is_null:
  assumes "\<not> hasTransaction s t"
  shows "getTransactionTime (addNewTransaction now t s) t = Some None \<and>
         getTransactionHeight (addNewTransaction now t s) t = Some (Some now) \<and>
         (unexecuted_get s t = None \<longrightarrow>
           (\<exists>a. unexecuted_get (addNewTransaction now t s) t = Some a \<and>
                downloaded (node_at (addNewTransaction now t s) a) = False \<and>
                hasCode (node_at (addNewTransaction now t s) a) = None))"
  using addNewTransaction_row [OF assms, of now] addNewTransaction_node [OF assms, of now]
  by (simp add: getTransactionTime_def getTransactionHeight_def)

theorem addNewTransaction_time_is_null_witness:
  "getTransactionTime (addNewTransaction 1000 ''A'' empty_db) ''A'' = Some None \<and>
   getTransactionHeight (addNewTransaction 1000 ''A'' empty_db) ''A'' = Some (Some 1000)"
  using addNewTransaction_time_is_null [of empty_db "''A''" 1000]
  by (simp add: hasTransaction_def empty_db_def)

subsection \<open>Operations on a txid without a node\<close>

text \<open>
  C10. \<open>storeExecutedTransaction\<close>, \<open>setTransactionExecutionFailed\<close> and
  \<open>addMissingDeps\<close>, called with a txid that has no node in the unexecuted map, return
  at once: the state after the call, with every table, the store, the map, the counter
  and the event log, is the state before it.
\<close>

theorem absent_node_is_noop:
  assumes "unexecuted_get s t = None"
  shows "storeExecutedTransaction t result s = s \<and>
         setTransactionExecutionFailed metadata t s = s \<and>
         addMissingDeps metadata now depth t deps s = Inr s"
  using assms
  by (simp add: storeExecutedTransaction_def addMissingDeps_def)

theorem absent_node_is_noop_witness:
  "storeExecutedTransaction ''A'' \<lparr>cache = [], classes = [], locks = [], scripthashes = []\<rparr>
     empty_db = empty_db \<and>
   setTransactionExecutionFailed (\<lambda>r. True) ''A'' empty_db = empty_db \<and>
   addMissingDeps (\<lambda>r. True) 1000 100 ''A'' [''B''] empty_db = Inr empty_db"
  using absent_node_is_noop [of empty_db "''A''"]
  by (simp add: unexecuted_get_def empty_db_def)

subsection \<open>Scenarios\<close>

text \<open>A sequence of calls on a database, stopping at the first call that throws. A
  method that cannot throw is lifted by \<open>returning\<close>. In the scenarios the clock reads
  1000, the call stack holds 100 nested calls, and \<open>Run.util.metadata\<close> accepts every
  stored hex string.\<close>

definition returning :: "(state \<Rightarrow> state) \<Rightarrow> state \<Rightarrow> error + state" where
  "returning f s = Inr (f s)"

definition run :: "(state \<Rightarrow> error + state) list \<Rightarrow> state \<Rightarrow> error + state" where
  "run ops s = forEach (\<lambda>op. op) ops s"

definition accepts_stored :: "rawtx \<Rightarrow> bool" where
  "accepts_stored r = (case r of Hex b \<Rightarrow> True | NullBytes \<Rightarrow> False | NoRow \<Rightarrow> False)"

definition no_result :: exec_result where
  "no_result = \<lparr> cache = [], classes = [], locks = [], scripthashes = [] \<rparr>"


subsection \<open>The counter of queued transactions\<close>

text \<open>The number of nodes in the unexecuted map whose flag is set.\<close>

definition queued_in_map :: "state \<Rightarrow> int" where
  "queued_in_map s =
     int (length (filter (\<lambda>e. queuedForExecution (node_at s (snd e))) (unexecuted s)))"

text \<open>\<open>B\<close> arrives and is parsed with the dependency \<open>A\<close>, which is not downloaded
  yet; \<open>B\<close> is deleted (it left the mempool); then \<open>A\<close> is parsed.\<close>

definition stale_downstream_run :: "error + state" where
  "stale_downstream_run =
     run [returning (addNewTransaction 1000 ''A''),
          returning (addNewTransaction 1000 ''B''),
          storeParsedExecutableTransaction accepts_stored 1000 100 ''B'' ''bb'' False [''A''] [] [],
          returning (deleteTransaction ''B''),
          storeParsedExecutableTransaction accepts_stored 1000 100 ''A'' ''aa'' False [] [] []]
       empty_db"

text \<open>
  C2. The counter \<open>numQueuedForExecution\<close> is expected to equal the number of flagged
  nodes in the map after every mutation. \<open>deleteTransaction\<close> takes the node of \<open>B\<close> out
  of the map and leaves it in \<open>A.downstream\<close>; when \<open>A\<close> becomes ready,
  \<open>_checkExecutability\<close> walks into the deleted node, sets its flag and counts it. At
  the end the map holds the one node of \<open>A\<close>, which is flagged, and the counter is 2.
\<close>

theorem counter_counts_deleted_node:
  "\<not> isl stale_downstream_run \<and>
   map fst (unexecuted (projr stale_downstream_run)) = [''A''] \<and>
   queued_in_map (projr stale_downstream_run) = 1 \<and>
   numQueuedForExecution (projr stale_downstream_run) = 2"
  by code_simp

subsection \<open>Edges in memory and in table deps\<close>

text \<open>The edge from \<open>u\<close> to \<open>d\<close> is materialised in memory: both have a node in the map,
  the node of \<open>d\<close> is in the downstream set of the node of \<open>u\<close>, and the node of \<open>u\<close> is
  in the upstream set of the node of \<open>d\<close>.\<close>

definition edge_in_memory :: "state \<Rightarrow> txid \<Rightarrow> txid \<Rightarrow> bool" where
  "edge_in_memory s u d =
     (case unexecuted_get s u of
        None \<Rightarrow> False
      | Some ua \<Rightarrow>
          (case unexecuted_get s d of
             None \<Rightarrow> False
           | Some da \<Rightarrow> da \<in> set (downstream (node_at s ua)) \<and> ua \<in> set (upstream (node_at s da))))"

text \<open>\<open>A\<close> is indexed; \<open>B\<close>, which depends on \<open>A\<close>, is parsed and waits in the map;
  then \<open>A\<close> is unindexed.\<close>

definition resurrect_run :: "error + state" where
  "resurrect_run =
     run [returning (addNewTransaction 1000 ''A''),
          storeParsedExecutableTransaction accepts_stored 1000 100 ''A'' ''aa'' False [] [] [],
          returning (storeExecutedTransaction ''A'' no_result),
          returning (addNewTransaction 1000 ''B''),
          storeParsedExecutableTransaction accepts_stored 1000 100 ''B'' ''bb'' False [''A''] [] [],
          unindexTransaction 100 ''A'']
       empty_db"

text \<open>
  C6. An edge of table \<open>deps\<close> is expected to be materialised in memory exactly when
  both ends are in the unexecuted map, also after \<open>unindexTransaction\<close> resurrects a
  node whose downstream neighbour is already in the map. The method rebuilds the
  upstream edges of the new node; for a downstream txid that is in the map it only
  forces the flag to false and returns. After the run the row \<open>(A, B)\<close> is in \<open>deps\<close>,
  \<open>A\<close> and \<open>B\<close> are in the map, and the edge is not in memory: \<open>B\<close> has no upstream
  node, and its flag is false.
\<close>

theorem unindex_leaves_edge_out:
  "\<not> isl resurrect_run \<and>
   (''A'', ''B'') \<in> set (deps_table (projr resurrect_run)) \<and>
   unexecuted_get (projr resurrect_run) ''A'' = Some 2 \<and>
   unexecuted_get (projr resurrect_run) ''B'' = Some 1 \<and>
   \<not> edge_in_memory (projr resurrect_run) ''A'' ''B'' \<and>
   upstream (node_at (projr resurrect_run) 1) = [] \<and>
   queuedForExecution (node_at (projr resurrect_run) 1) = False"
  by code_simp

subsection \<open>Counterexamples\<close>

text \<open>The cached flag of the node at \<open>a\<close> agrees with the readiness predicate, and the
  invariant that it does so for every node in the unexecuted map.\<close>

definition consistent :: "state \<Rightarrow> addr \<Rightarrow> bool" where
  "consistent s a = (queuedForExecution (node_at s a) = ready s (node_at s a))"

definition ready_invariant :: "state \<Rightarrow> bool" where
  "ready_invariant s = list_all (\<lambda>e. consistent s (snd e)) (unexecuted s)"







subsection \<open>Frame lemmas\<close>



text \<open>The events of the trust and ban registry, and the part of the log that holds
  them.\<close>

fun is_registry_event :: "event \<Rightarrow> bool" where
  "is_registry_event (TrustTransaction t) = True"
| "is_registry_event (UntrustTransaction t) = True"
| "is_registry_event (BanTransaction t) = True"
| "is_registry_event (UnbanTransaction t) = True"
| "is_registry_event e = False"

definition registry_events :: "state \<Rightarrow> (event \<times> nat) list" where
  "registry_events s = filter (\<lambda>e. is_registry_event (fst e)) (events s)"

text \<open>Two states that differ at most in the flags of the nodes, the counter and the
  events of the log that are not registry events.\<close>

definition same_graph :: "state \<Rightarrow> state \<Rightarrow> bool" where
  "same_graph s s' =
     (tx_table s' = tx_table s \<and> deps_table s' = deps_table s \<and> jig_table s' = jig_table s \<and>
      berry_table s' = berry_table s \<and> spends_table s' = spends_table s \<and>
      trust_table s' = trust_table s \<and> ban_table s' = ban_table s \<and>
      trustlist s' = trustlist s \<and> banlist s' = banlist s \<and> unexecuted s' = unexecuted s \<and>
      openTransactions s' = openTransactions s \<and>
      registry_events s' = registry_events s \<and>
      map (queuedForExecution_update (\<lambda>q. False)) (heap s') =
        map (queuedForExecution_update (\<lambda>q. False)) (heap s))"

lemma same_graph_refl [simp]: "same_graph s s"
  by (simp add: same_graph_def)





lemma registry_events_simps [simp]:
  "registry_events (s\<lparr>heap := h\<rparr>) = registry_events s"
  "registry_events (s\<lparr>numQueuedForExecution := k\<rparr>) = registry_events s"
  "registry_events (s\<lparr>openTransactions := j\<rparr>) = registry_events s"
  "registry_events (s\<lparr>unexecuted := u\<rparr>) = registry_events s"
  "registry_events (s\<lparr>trustlist := tset\<rparr>) = registry_events s"
  "registry_events (s\<lparr>banlist := bset\<rparr>) = registry_events s"
  "registry_events (s\<lparr>tx_table := tt\<rparr>) = registry_events s"
  "registry_events (s\<lparr>jig_table := jt\<rparr>) = registry_events s"
  "registry_events (s\<lparr>berry_table := bt\<rparr>) = registry_events s"
  "registry_events (s\<lparr>trust_table := trt\<rparr>) = registry_events s"
  "registry_events (s\<lparr>ban_table := bat\<rparr>) = registry_events s"
  by (simp_all add: registry_events_def)

lemma emit_fields [simp]:
  "tx_table (emit e s) = tx_table s"
  "deps_table (emit e s) = deps_table s"
  "jig_table (emit e s) = jig_table s"
  "berry_table (emit e s) = berry_table s"
  "spends_table (emit e s) = spends_table s"
  "trust_table (emit e s) = trust_table s"
  "ban_table (emit e s) = ban_table s"
  "trustlist (emit e s) = trustlist s"
  "banlist (emit e s) = banlist s"
  "unexecuted (emit e s) = unexecuted s"
  "heap (emit e s) = heap s"
  "numQueuedForExecution (emit e s) = numQueuedForExecution s"
  "openTransactions (emit e s) = openTransactions s"
  "events (emit e s) = events s @ [(e, openTransactions s)]"
  "registry_events (emit e s) =
     (if is_registry_event e then registry_events s @ [(e, openTransactions s)]
      else registry_events s)"
  by (simp_all add: emit_def registry_events_def)

lemma node_at_emit [simp]: "node_at (emit e s) a = node_at s a"
  by (simp add: node_at_def)




lemma node_at_counter [simp]: "node_at (s\<lparr>numQueuedForExecution := k\<rparr>) a = node_at s a"
  by (simp add: node_at_def)




subsection \<open>The walk of trust\<close>









subsection \<open>What the operations leave alone\<close>



lemma lists_fold_setTrusted [simp]:
  "trustlist (fold (\<lambda>x. setTrustedStmt x v) xs s) = trustlist s"
  "banlist (fold (\<lambda>x. setTrustedStmt x v) xs s) = banlist s"
  "unexecuted (fold (\<lambda>x. setTrustedStmt x v) xs s) = unexecuted s"
  "heap (fold (\<lambda>x. setTrustedStmt x v) xs s) = heap s"
  "events (fold (\<lambda>x. setTrustedStmt x v) xs s) = events s"
  "openTransactions (fold (\<lambda>x. setTrustedStmt x v) xs s) = openTransactions s"
  by (induction xs arbitrary: s; simp add: setTrustedStmt_def)+

lemma lists_fold_emit [simp]:
  "trustlist (fold (\<lambda>x. emit (f x)) xs s) = trustlist s"
  "banlist (fold (\<lambda>x. emit (f x)) xs s) = banlist s"
  "openTransactions (fold (\<lambda>x. emit (f x)) xs s) = openTransactions s"
  by (induction xs arbitrary: s; simp)+

lemma events_fold_emit:
  "events (fold (\<lambda>x. emit (f x)) xs s) = events s @ map (\<lambda>x. (f x, openTransactions s)) xs"
  by (induction xs arbitrary: s) simp_all





lemma lists_fold_link_upstream [simp]:
  "trustlist (fold (link_upstream a) us s) = trustlist s"
  "banlist (fold (link_upstream a) us s) = banlist s"
  "openTransactions (fold (link_upstream a) us s) = openTransactions s"
  "registry_events (fold (link_upstream a) us s) = registry_events s"
  by (induction us arbitrary: s; simp add: link_upstream_def Let_def set_node_def split: option.splits)+




subsection \<open>trust\<close>







subsection \<open>Registry events fire outside transactions\<close>


lemma registry_fold_setTrusted [simp]:
  "registry_events (fold (\<lambda>x. setTrustedStmt x v) xs s) = registry_events s"
  by (simp add: registry_events_def)



declare setTransactionExecutionFailed.simps [simp del]
declare deleteTransactionRec.simps [simp del]

subsection \<open>setTransactionExecutionFailed\<close>

definition failed_row :: "tx_row \<Rightarrow> tx_row" where
  "failed_row r = r\<lparr>executable := 0, executed := 1, indexed := 0\<rparr>"

text \<open>From \<open>s\<close> to \<open>s'\<close> nodes have only left the map, and the rows of table \<open>tx\<close> have
  changed only for the txids that left it, which are marked as failed.\<close>

definition failed_since :: "state \<Rightarrow> state \<Rightarrow> bool" where
  "failed_since s s' =
     ((\<forall>x a. unexecuted_get s' x = Some a \<longrightarrow>
          unexecuted_get s x = Some a \<and> tx_table s' x = tx_table s x) \<and>
      (\<forall>x. unexecuted_get s' x = None \<longrightarrow> unexecuted_get s x = None \<longrightarrow>
          tx_table s' x = tx_table s x) \<and>
      (\<forall>x. unexecuted_get s' x = None \<longrightarrow> unexecuted_get s x \<noteq> None \<longrightarrow>
          tx_table s' x = map_option failed_row (tx_table s x)))"

lemma failed_since_refl [simp]: "failed_since s s"
  by (auto simp: failed_since_def)

lemma failed_row_idem [simp]: "failed_row (failed_row r) = failed_row r"
  by (simp add: failed_row_def)

lemma failed_since_trans:
  assumes "failed_since s s'" and "failed_since s' s''"
  shows "failed_since s s''"
proof -
  have "unexecuted_get s x = Some a \<and> tx_table s'' x = tx_table s x"
    if "unexecuted_get s'' x = Some a" for x a
    using that assms unfolding failed_since_def by metis
  moreover have "tx_table s'' x = tx_table s x"
    if "unexecuted_get s'' x = None" "unexecuted_get s x = None" for x
  proof -
    have "unexecuted_get s' x = None"
      using that(2) assms(1) unfolding failed_since_def by (metis option.exhaust option.distinct(1))
    then show ?thesis using that assms unfolding failed_since_def by metis
  qed
  moreover have "tx_table s'' x = map_option failed_row (tx_table s x)"
    if "unexecuted_get s'' x = None" "unexecuted_get s x \<noteq> None" for x
  proof (cases "unexecuted_get s' x")
    case None
    then have "tx_table s' x = map_option failed_row (tx_table s x)" "tx_table s'' x = tx_table s' x"
      using that assms unfolding failed_since_def by metis+
    then show ?thesis by simp
  next
    case (Some a)
    then have "tx_table s' x = tx_table s x" "tx_table s'' x = map_option failed_row (tx_table s' x)"
      using that assms unfolding failed_since_def by (metis option.distinct(1))+
    then show ?thesis by simp
  qed
  ultimately show ?thesis unfolding failed_since_def by blast
qed

lemma failed_since_cong:
  assumes "failed_since s s'" and "unexecuted s'' = unexecuted s'" and "tx_table s'' = tx_table s'"
  shows "failed_since s s''"
  using assms unfolding failed_since_def unexecuted_get_def by metis

lemma failed_since_absent:
  "failed_since s s' \<Longrightarrow> unexecuted_get s x = None \<Longrightarrow> unexecuted_get s' x = None"
  unfolding failed_since_def by (metis option.exhaust option.distinct(1))

lemma tx_table_update_tx:
  "tx_table (update_tx t f s) = (tx_table s)(t := map_option f (tx_table s t))"
  by (auto simp: update_tx_def fun_eq_iff split: option.splits)

lemma tx_table_set_node [simp]: "tx_table (set_node a n s) = tx_table s"
  by (simp add: set_node_def)

lemma tx_table_detach [simp]: "tx_table (detach a d s) = tx_table s"
  by (simp add: detach_def)

lemma tx_table_fold_detach [simp]: "tx_table (fold (detach a) ds s) = tx_table s"
  by (induction ds arbitrary: s) auto

lemma tx_table_remove_node [simp]: "tx_table (remove_node t a s) = tx_table s"
  by (simp add: remove_node_def Let_def unexecuted_delete_def)

lemma tx_table_notify [simp]: "tx_table (notify_if_ready d s) = tx_table s"
  by (simp add: notify_if_ready_def Let_def)

lemma tx_table_fold_notify [simp]: "tx_table (fold notify_if_ready ds s) = tx_table s"
  by (induction ds arbitrary: s) auto

text \<open>The state of \<open>setTransactionExecutionFailed\<close> after the node has been taken out.\<close>

definition fail_one :: "txid \<Rightarrow> addr \<Rightarrow> state \<Rightarrow> state" where
  "fail_one t a s =
     remove_node t a (setTransactionIndexedStmt 0 t (setTransactionExecutedStmt 1 t
       (setTransactionExecutableStmt 0 t (begin_transaction s))))"

lemma setTransactionExecutionFailed_unfold:
  "setTransactionExecutionFailed m t s =
     (case unexecuted_get s t of
        None \<Rightarrow> s
      | Some a \<Rightarrow>
          commit_transaction
            (if m (getTransactionHex (fail_one t a s) t)
             then failDownstream m (map (\<lambda>d. txid (node_at (fail_one t a s) d))
                    (downstream (node_at (fail_one t a s) a))) (fail_one t a s)
             else fold notify_if_ready (downstream (node_at (fail_one t a s) a)) (fail_one t a s)))"
  by (cases "unexecuted_get s t")
     (simp_all add: setTransactionExecutionFailed.simps fail_one_def Let_def)

lemma tx_table_fail_one:
  "tx_table (fail_one t a s) = (tx_table s)(t := map_option failed_row (tx_table s t))"
  unfolding failed_row_def
  by (auto simp: fail_one_def setTransactionExecutableStmt_def setTransactionExecutedStmt_def
      setTransactionIndexedStmt_def tx_table_update_tx begin_transaction_def failed_row_def
      fun_eq_iff option.map_comp comp_def split: option.splits)

lemma unexecuted_fail_one: "unexecuted (fail_one t a s) = AList.delete t (unexecuted s)"
  by (simp add: fail_one_def setTransactionExecutableStmt_def setTransactionExecutedStmt_def
      setTransactionIndexedStmt_def)

lemma failed_since_fail_one:
  assumes "unexecuted_get s t = Some a"
  shows "failed_since s (fail_one t a s)"
  using assms
  by (auto simp: failed_since_def tx_table_fail_one unexecuted_fail_one unexecuted_get_def
      delete_conv' split: option.splits)

lemma setTransactionExecutionFailed_failed_since:
  "failed_since s (setTransactionExecutionFailed m t s) \<and>
     unexecuted_get (setTransactionExecutionFailed m t s) t = None"
  "failed_since s (failDownstream m ts s) \<and>
     (\<forall>x \<in> set ts. unexecuted_get (failDownstream m ts s) x = None)"
proof (induction m t s and m ts s rule: setTransactionExecutionFailed_failDownstream.induct)
  case (1 m t s)
  show ?case
  proof (cases "unexecuted_get s t")
    case None
    then show ?thesis by (simp add: setTransactionExecutionFailed_unfold)
  next
    case (Some a)
    define s4 where "s4 = fail_one t a s"
    have f4: "failed_since s s4" unfolding s4_def by (rule failed_since_fail_one [OF Some])
    have n4: "unexecuted_get s4 t = None"
      by (simp add: s4_def unexecuted_fail_one unexecuted_get_def delete_conv')
    show ?thesis
    proof (cases "m (getTransactionHex s4 t)")
      case True
      define s5 where "s5 = failDownstream m (map (\<lambda>d. txid (node_at s4 d)) (downstream (node_at s4 a))) s4"
      have eq: "setTransactionExecutionFailed m t s = commit_transaction s5"
        using Some True by (simp add: setTransactionExecutionFailed_unfold s4_def s5_def)
      have "failed_since s4 s5"
        using 1 [OF Some refl refl refl refl refl refl] True
        unfolding s5_def s4_def fail_one_def by blast
      then have "failed_since s s5" "unexecuted_get s5 t = None"
        using f4 n4 failed_since_trans failed_since_absent by blast+
      then show ?thesis
        unfolding eq
        by (auto intro: failed_since_cong simp: commit_transaction_def unexecuted_get_def)
    next
      case False
      have eq: "setTransactionExecutionFailed m t s =
          commit_transaction (fold notify_if_ready (downstream (node_at s4 a)) s4)"
        using Some False by (simp add: setTransactionExecutionFailed_unfold s4_def)
      show ?thesis
        unfolding eq using f4 n4
        by (auto intro: failed_since_cong simp: commit_transaction_def unexecuted_get_def)
    qed
  qed
next
  case (2 m s)
  then show ?case by simp
next
  case (3 m d ds s)
  have a: "failed_since s (setTransactionExecutionFailed m d s)"
    and b: "unexecuted_get (setTransactionExecutionFailed m d s) d = None"
    using 3(1) by auto
  have c: "failed_since (setTransactionExecutionFailed m d s)
             (failDownstream m ds (setTransactionExecutionFailed m d s))"
    and d: "\<forall>x \<in> set ds. unexecuted_get (failDownstream m ds (setTransactionExecutionFailed m d s)) x = None"
    using 3(2) by auto
  show ?case
    using a b c d failed_since_trans failed_since_absent by (simp; blast)
qed


subsection \<open>A dependency that can never be indexed\<close>

lemma addNewTransaction_unexecuted_get:
  "unexecuted_get (addNewTransaction now d s) x =
     (if x = d \<and> tx_table s d = None \<and> unexecuted_get s d = None then Some (length (heap s))
      else unexecuted_get s x)"
  by (auto simp: addNewTransaction_def Let_def hasTransaction_def addNewTransactionStmt_def
      unexecuted_get_def unexecuted_set_def new_UnexecutedTx_def update_conv' emit_def
      split: option.splits)

lemma addNewTransaction_tx_table:
  "tx_table (addNewTransaction now d s) x =
     (if x = d \<and> tx_table s d = None
      then Some \<lparr> height = Some now, time = None, bytes = None, has_code = 0,
                  executable = 0, executed = 0, indexed = 0 \<rparr>
      else tx_table s x)"
  by (auto simp: addNewTransaction_def Let_def hasTransaction_def addNewTransactionStmt_def
      unexecuted_get_def unexecuted_set_def new_UnexecutedTx_def emit_def
      split: option.splits)

lemma addDepStmt_frame [simp]:
  "unexecuted (addDepStmt u d s) = unexecuted s"
  "tx_table (addDepStmt u d s) = tx_table s"
  "heap (addDepStmt u d s) = heap s"
  by (simp_all add: addDepStmt_def)

lemma link_frame [simp]:
  "unexecuted (link da a s) = unexecuted s"
  "tx_table (link da a s) = tx_table s"
  by (simp_all add: link_def Let_def set_node_def)

lemma unexecuted_get_cong: "unexecuted s' = unexecuted s \<Longrightarrow> unexecuted_get s' = unexecuted_get s"
  by (simp add: unexecuted_get_def fun_eq_iff)

lemma store_deps_fails:
  assumes "unexecuted_get s t = Some a" and "tx_table s t = Some r"
    and "b \<in> set deps" and "unexecuted_get s b = None"
    and "tx_table s b = Some rb" and "indexed rb = 0"
  shows "\<exists>s' r'. store_deps m now t a deps s = Inr (True, s') \<and>
           unexecuted_get s' t = None \<and> tx_table s' t = Some (failed_row r')"
  using assms
proof (induction deps arbitrary: s r)
  case Nil
  then show ?case by simp
next
  case (Cons dep deps)
  define s2 where "s2 = addDepStmt dep t (addNewTransaction now dep s)"
  have g2: "unexecuted_get s2 = unexecuted_get (addNewTransaction now dep s)"
    unfolding s2_def by (rule unexecuted_get_cong) simp
  have t2: "unexecuted_get s2 t = Some a"
    using Cons.prems(1,2) by (auto simp: g2 addNewTransaction_unexecuted_get)
  have r2: "tx_table s2 t = Some r"
    using Cons.prems(2) by (auto simp: s2_def addNewTransaction_tx_table)
  have b2: "unexecuted_get s2 b = None"
    using Cons.prems(4,5) by (auto simp: g2 addNewTransaction_unexecuted_get)
  have rb2: "tx_table s2 b = Some rb"
    using Cons.prems(5) by (auto simp: s2_def addNewTransaction_tx_table)
  show ?case
  proof (cases "unexecuted_get s2 dep")
    case (Some da)
    then have ne: "dep \<noteq> b" using b2 by auto
    then have "b \<in> set deps" using Cons.prems(3) by simp
    moreover have "unexecuted_get (link da a s2) = unexecuted_get s2"
      by (rule unexecuted_get_cong) simp
    ultimately have "\<exists>s' r'. store_deps m now t a deps (link da a s2) = Inr (True, s') \<and>
           unexecuted_get s' t = None \<and> tx_table s' t = Some (failed_row r')"
      using Cons.IH [of "link da a s2" r] t2 r2 b2 rb2 Cons.prems(6) by simp
    then show ?thesis using Some by (simp add: Let_def s2_def)
  next
    case None
    have "tx_table s dep \<noteq> None"
    proof
      assume "tx_table s dep = None"
      then have "unexecuted_get s2 dep \<noteq> None"
        by (cases "unexecuted_get s dep") (simp_all add: g2 addNewTransaction_unexecuted_get)
      then show False using None by simp
    qed
    then obtain rd where rd: "tx_table s2 dep = Some rd"
      by (auto simp: s2_def addNewTransaction_tx_table)
    show ?thesis
    proof (cases "indexed rd = 0")
      case True
      define s' where "s' = setTransactionExecutionFailed m t s2"
      have "failed_since s2 s'" "unexecuted_get s' t = None"
        using setTransactionExecutionFailed_failed_since(1) [of s2 m t] by (simp_all add: s'_def)
      then have "tx_table s' t = Some (failed_row r)"
        using t2 r2 unfolding failed_since_def by (metis option.distinct(1) option.simps(9))
      then show ?thesis
        using None rd True \<open>unexecuted_get s' t = None\<close>
        by (auto simp: Let_def s2_def s'_def)
    next
      case False
      then have ne: "dep \<noteq> b" using rd rb2 Cons.prems(6) by auto
      then have "b \<in> set deps" using Cons.prems(3) by simp
      then have "\<exists>s' r'. store_deps m now t a deps s2 = Inr (True, s') \<and>
           unexecuted_get s' t = None \<and> tx_table s' t = Some (failed_row r')"
        using Cons.IH [of s2 r] t2 r2 b2 rb2 Cons.prems(6) by simp
      then show ?thesis using None rd False by (simp add: Let_def s2_def)
    qed
  qed
qed

lemma store_spends_frame [simp]:
  "unexecuted (store_spends t inputs outputs s) = unexecuted s"
  "tx_table (store_spends t inputs outputs s) = tx_table s"
proof -
  have a: "unexecuted (fold (\<lambda>location. setSpendStmt location t) xs s0) = unexecuted s0 \<and>
           tx_table (fold (\<lambda>location. setSpendStmt location t) xs s0) = tx_table s0" for xs s0
    by (induction xs arbitrary: s0) (simp_all add: setSpendStmt_def)
  have b: "unexecuted (fold setUnspentStmt xs s0) = unexecuted s0 \<and>
           tx_table (fold setUnspentStmt xs s0) = tx_table s0" for xs s0
    by (induction xs arbitrary: s0) (simp_all add: setUnspentStmt_def split: option.splits)
  show "unexecuted (store_spends t inputs outputs s) = unexecuted s"
    "tx_table (store_spends t inputs outputs s) = tx_table s"
    by (simp_all add: store_spends_def a b)
qed

text \<open>
  C7. \<open>storeParsedExecutableTransaction\<close> is called for a txid \<open>t\<close> that has a node in
  the unexecuted map and a row in table \<open>tx\<close>. If some declared dep has no node in the
  map and its row shows \<open>indexed = 0\<close>, the call returns, the row of \<open>t\<close> ends with
  \<open>executable = 0\<close>, \<open>executed = 1\<close>, \<open>indexed = 0\<close>, and \<open>t\<close> has no node in the map.
  Readiness is not re-evaluated: the call returns the same state when the call stack
  has no room for a single call of \<open>_checkExecutability\<close>.
\<close>

theorem failed_dep_fails_transaction:
  assumes "unexecuted_get s t = Some a" and "tx_table s t = Some r"
    and "dep \<in> set deps" and "unexecuted_get s dep = None"
    and "tx_table s dep = Some rd" and "indexed rd = 0"
  shows "\<exists>s' r'.
           storeParsedExecutableTransaction metadata now depth t hex hc deps inputs outputs s = Inr s' \<and>
           storeParsedExecutableTransaction metadata now 0 t hex hc deps inputs outputs s = Inr s' \<and>
           unexecuted_get s' t = None \<and>
           tx_table s' t = Some r' \<and> executable r' = 0 \<and> executed r' = 1 \<and> indexed r' = 0"
proof -
  define s4 where "s4 = store_spends t inputs outputs
     (setTransactionHasCodeStmt (if hc then 1 else 0) t (setTransactionExecutableStmt 1 t
        (setTransactionBytesStmt hex t (begin_transaction s))))"
  define s5 where "s5 = set_node a ((node_at s4 a)\<lparr>hasCode := Some hc, downloaded := True\<rparr>) s4"
  have u4: "unexecuted s4 = unexecuted s"
    by (simp add: s4_def setTransactionHasCodeStmt_def setTransactionExecutableStmt_def
        setTransactionBytesStmt_def)
  have ne: "dep \<noteq> t" using assms(1,4) by auto
  have tt4: "tx_table s4 x = (if x = t then map_option
      (\<lambda>r. r\<lparr>bytes := Some hex, executable := 1, has_code := (if hc then 1 else 0)\<rparr>) (tx_table s t)
      else tx_table s x)" for x
    by (auto simp: s4_def setTransactionHasCodeStmt_def setTransactionExecutableStmt_def
        setTransactionBytesStmt_def tx_table_update_tx begin_transaction_def option.map_comp comp_def
        split: option.splits)
  have g4: "unexecuted_get s4 = unexecuted_get s" by (rule unexecuted_get_cong) (rule u4)
  have g5: "unexecuted_get s5 = unexecuted_get s"
    by (rule unexecuted_get_cong) (simp add: s5_def u4)
  have h1: "unexecuted_get s5 t = Some a" using assms(1) by (simp add: g5)
  have h2: "tx_table s5 t =
      Some (r\<lparr>bytes := Some hex, executable := 1, has_code := (if hc then 1 else 0)\<rparr>)"
    using assms(2) by (simp add: s5_def tt4)
  have h4: "unexecuted_get s5 dep = None" using assms(4) by (simp add: g5)
  have h5: "tx_table s5 dep = Some rd" using assms(5) ne by (simp add: s5_def tt4)
  obtain s6 r' where s6: "store_deps metadata now t a deps s5 = Inr (True, s6)"
    and n6: "unexecuted_get s6 t = None" and r6: "tx_table s6 t = Some (failed_row r')"
    using store_deps_fails [OF h1 h2 assms(3) h4 h5 assms(6), of metadata now] by blast
  have run: "storeParsedExecutableTransaction metadata now k t hex hc deps inputs outputs s
      = Inr (commit_transaction s6)" for k
    using s6 assms(1)
    by (simp add: storeParsedExecutableTransaction_def transaction_def Let_def g4
        s4_def [symmetric] s5_def [symmetric])
  have "unexecuted_get (commit_transaction s6) t = None"
    using n6 by (simp add: unexecuted_get_def)
  moreover have "tx_table (commit_transaction s6) t = Some (failed_row r')"
    using r6 by (simp add: commit_transaction_def)
  ultimately show ?thesis
    using run by (auto simp: failed_row_def)
qed


text \<open>\<open>X\<close> is downloaded and not executable; \<open>T\<close> is new.\<close>

definition state_dead_dep :: state where
  "state_dead_dep = projr (run [returning (addNewTransaction 1000 ''X''),
       storeParsedNonExecutableTransaction 100 ''X'' ''cc'' [] [],
       returning (addNewTransaction 1000 ''T'')] empty_db)"

theorem failed_dep_fails_transaction_witness:
  "unexecuted_get state_dead_dep ''T'' = Some 1 \<and>
   unexecuted_get state_dead_dep ''X'' = None \<and>
   map_option indexed (tx_table state_dead_dep ''X'') = Some 0 \<and>
   (\<exists>s' r'.
      storeParsedExecutableTransaction accepts_stored 1000 100 ''T'' ''dd'' False [''X''] [] []
        state_dead_dep = Inr s' \<and>
      storeParsedExecutableTransaction accepts_stored 1000 0 ''T'' ''dd'' False [''X''] [] []
        state_dead_dep = Inr s' \<and>
      unexecuted_get s' ''T'' = None \<and>
      tx_table s' ''T'' = Some r' \<and> executable r' = 0 \<and> executed r' = 1 \<and> indexed r' = 0)"
proof -
  have h1: "unexecuted_get state_dead_dep ''T'' = Some 1" by code_simp
  have h2: "tx_table state_dead_dep ''T'' = Some \<lparr> height = Some 1000, time = None, bytes = None,
      has_code = 0, executable = 0, executed = 0, indexed = 0 \<rparr>" by code_simp
  have h3: "''X'' \<in> set [''X'']" by simp
  have h4: "unexecuted_get state_dead_dep ''X'' = None" by code_simp
  have h5: "tx_table state_dead_dep ''X'' = Some \<lparr> height = Some 1000, time = None,
      bytes = Some ''cc'', has_code = 0, executable = 0, executed = 0, indexed = 0 \<rparr>" by code_simp
  have h6: "indexed \<lparr> height = Some 1000, time = None,
      bytes = Some ''cc'', has_code = 0, executable = 0, executed = 0, indexed = 0 \<rparr> = 0" by simp
  show ?thesis
    using failed_dep_fails_transaction [OF h1 h2 h3 h4 h5 h6, of accepts_stored 1000 100 "''dd''" False "[]" "[]"]
      h1 h4 h5 by simp
qed

subsection \<open>The cascade of a failed execution\<close>

lemma node_at_detach:
  "node_at (detach a d s) b =
     (if b = d then (node_at s d)\<lparr>upstream := set_delete a (upstream (node_at s d))\<rparr>
      else node_at s b)"
  by (auto simp: detach_def node_at_def set_node_def inert_def set_delete_def)

lemma set_delete_idem [simp]: "set_delete a (set_delete a xs) = set_delete a xs"
  by (simp add: set_delete_def)

lemma node_at_fold_detach:
  "node_at (fold (detach a) ds s) b =
     (if b \<in> set ds then (node_at s b)\<lparr>upstream := set_delete a (upstream (node_at s b))\<rparr>
      else node_at s b)"
  by (induction ds arbitrary: s) (auto simp: node_at_detach)

lemma node_at_unexecuted_delete [simp]: "node_at (unexecuted_delete t s) b = node_at s b"
  by (simp add: node_at_def unexecuted_delete_def)

lemma node_at_remove_node:
  "node_at (remove_node t a s) b =
     (let n = (if b \<in> set (downstream (node_at s a))
               then (node_at s b)\<lparr>upstream := set_delete a (upstream (node_at s b))\<rparr>
               else node_at s b)
      in if b = a then n\<lparr>queuedForExecution := False\<rparr> else n)"
proof -
  define s2 where "s2 = unexecuted_delete t (fold (detach a) (downstream (node_at s a)) s)"
  have n2: "node_at s2 b = (if b \<in> set (downstream (node_at s a))
               then (node_at s b)\<lparr>upstream := set_delete a (upstream (node_at s b))\<rparr>
               else node_at s b)" for b
    by (simp add: s2_def node_at_fold_detach)
  have "node_at (set_node a ((node_at s3 a)\<lparr>queuedForExecution := False\<rparr>) s3) b =
        (if b = a then (node_at s3 a)\<lparr>queuedForExecution := False\<rparr> else node_at s3 b)" for s3
    by (auto simp: node_at_def set_node_def inert_def)
  then show ?thesis
    by (auto simp: remove_node_def Let_def s2_def [symmetric] n2)
qed

lemma node_at_stmts [simp]:
  "node_at (update_tx t f s) b = node_at s b"
  "node_at (begin_transaction s) b = node_at s b"
  "node_at (commit_transaction s) b = node_at s b"
  by (simp_all add: node_at_def update_tx_def begin_transaction_def commit_transaction_def
      split: option.splits)

lemma node_at_fail_one:
  "node_at (fail_one t a s) b =
     (let n = (if b \<in> set (downstream (node_at s a))
               then (node_at s b)\<lparr>upstream := set_delete a (upstream (node_at s b))\<rparr>
               else node_at s b)
      in if b = a then n\<lparr>queuedForExecution := False\<rparr> else n)"
  by (simp add: fail_one_def node_at_remove_node setTransactionExecutableStmt_def
      setTransactionExecutedStmt_def setTransactionIndexedStmt_def)

lemma fail_one_graph [simp]:
  "txid (node_at (fail_one t a s) b) = txid (node_at s b)"
  "downstream (node_at (fail_one t a s) b) = downstream (node_at s b)"
  by (simp_all add: node_at_fail_one Let_def)

lemma events_remove_node [simp]:
  "events (remove_node t a s) = events s"
  "openTransactions (remove_node t a s) = openTransactions s"
proof -
  have "events (fold (detach a) ds s0) = events s0 \<and>
        openTransactions (fold (detach a) ds s0) = openTransactions s0" for ds s0
    by (induction ds arbitrary: s0) (simp_all add: detach_def set_node_def)
  then show "events (remove_node t a s) = events s"
    "openTransactions (remove_node t a s) = openTransactions s"
    by (simp_all add: remove_node_def Let_def unexecuted_delete_def set_node_def)
qed

lemma events_update_tx [simp]:
  "events (update_tx t f s) = events s"
  "openTransactions (update_tx t f s) = openTransactions s"
  by (simp_all add: update_tx_def split: option.splits)










subsection \<open>Re-evaluation restores the flags\<close>

text \<open>The addresses of the nodes in the unexecuted map.\<close>

definition live :: "state \<Rightarrow> addr set" where
  "live s = snd ` set (unexecuted s)"

text \<open>Every upstream edge of a node in the map is mirrored by a downstream edge.\<close>

definition mirrored :: "state \<Rightarrow> bool" where
  "mirrored s =
     list_all (\<lambda>e. list_all (\<lambda>u. snd e \<in> set (downstream (node_at s u)))
                        (upstream (node_at s (snd e))))
              (unexecuted s)"









lemma install_flag_lists [simp]:
  "trustlist (install_flag a q s) = trustlist s"
  "banlist (install_flag a q s) = banlist s"
  "unexecuted (install_flag a q s) = unexecuted s"
  by (simp_all add: install_flag_def Let_def set_node_def)

lemma live_install_flag [simp]: "live (install_flag a q s) = live s"
  by (simp add: live_def)





subsection \<open>Well-formed graphs\<close>

text \<open>The map has one entry per txid and per node, the node of a txid carries that
  txid and is allocated, and upstream edges are mirrored.\<close>

definition well_formed :: "state \<Rightarrow> bool" where
  "well_formed s =
     (mirrored s \<and>
      distinct (map fst (unexecuted s)) \<and>
      distinct (map snd (unexecuted s)) \<and>
      list_all (\<lambda>e. txid (node_at s (snd e)) = fst e \<and> snd e < length (heap s)) (unexecuted s))"













lemma frame_fold_setTrusted [simp]:
  "heap (fold (\<lambda>x. setTrustedStmt x v) xs s) = heap s"
  by (induction xs arbitrary: s) (simp_all add: setTrustedStmt_def)

lemma frame_fold_emit [simp]:
  "heap (fold (\<lambda>x. emit (f x)) xs s) = heap s"
  "unexecuted (fold (\<lambda>x. emit (f x)) xs s) = unexecuted s"
  by (induction xs arbitrary: s; simp)+



subsection \<open>Nodes that enter and leave the map\<close>




lemma addNewTransactionStmt_frame [simp]:
  "heap (addNewTransactionStmt d now s) = heap s"
  "unexecuted (addNewTransactionStmt d now s) = unexecuted s"
  "trustlist (addNewTransactionStmt d now s) = trustlist s"
  "banlist (addNewTransactionStmt d now s) = banlist s"
  by (simp_all add: addNewTransactionStmt_def split: option.splits)




text \<open>Two states with the same store, map, trust set and ban set.\<close>

definition same_memory :: "state \<Rightarrow> state \<Rightarrow> bool" where
  "same_memory s s' =
     (heap s' = heap s \<and> unexecuted s' = unexecuted s \<and>
      trustlist s' = trustlist s \<and> banlist s' = banlist s)"


lemma same_memory_refl [simp]: "same_memory s s"
  by (simp add: same_memory_def)

lemma same_memory_trans: "same_memory s s' \<Longrightarrow> same_memory s' s'' \<Longrightarrow> same_memory s s''"
  by (simp add: same_memory_def)

lemma same_memory_stmts [simp]:
  "same_memory s (update_tx t f s') = same_memory s s'"
  "same_memory s (update_jig l g s') = same_memory s s'"
  "same_memory s (store_cache_entry e s') = same_memory s s'"
  "same_memory s (setSpendStmt l t s') = same_memory s s'"
  "same_memory s (setUnspentStmt l s') = same_memory s s'"
  "same_memory s (emit ev s') = same_memory s s'"
  "same_memory s (begin_transaction s') = same_memory s s'"
  "same_memory s (commit_transaction s') = same_memory s s'"
  "same_memory s (notify_if_ready d s') = same_memory s s'"
  "same_memory s (addDepStmt k k' s') = same_memory s s'"
  by (simp_all add: same_memory_def update_tx_def update_jig_def store_cache_entry_def Let_def
      setSpendStmt_def setUnspentStmt_def begin_transaction_def commit_transaction_def
      notify_if_ready_def addDepStmt_def split: option.splits)

lemma same_memory_fold:
  assumes "\<And>x s'. same_memory s (f x s') = same_memory s s'"
  shows "same_memory s (fold f xs s') = same_memory s s'"
  by (induction xs arbitrary: s') (simp_all add: assms)

lemma same_memory_folds [simp]:
  "same_memory s (fold store_cache_entry es s') = same_memory s s'"
  "same_memory s (fold notify_if_ready ds s') = same_memory s s'"
  "same_memory s (fold setUnspentStmt ls s') = same_memory s s'"
  "same_memory s (fold (\<lambda>l. setSpendStmt l t) ls s') = same_memory s s'"
  "same_memory s (fold (\<lambda>e. update_jig (fst e) (h e)) es s') = same_memory s s'"
  by (rule same_memory_fold, simp)+







subsection \<open>The operations that keep the flags right\<close>




text \<open>\<open>deleteTransaction\<close> takes entries out of the map and changes no node.\<close>

definition shrunk :: "state \<Rightarrow> state \<Rightarrow> bool" where
  "shrunk s s' =
     (heap s' = heap s \<and> trustlist s' = trustlist s \<and> banlist s' = banlist s \<and>
      (\<exists>P. unexecuted s' = filter P (unexecuted s)))"

lemma shrunk_refl [simp]: "shrunk s s"
  by (auto simp: shrunk_def intro: exI [of _ "\<lambda>x. True"])











subsection \<open>Adding dependencies\<close>




lemma link_frame2 [simp]:
  "length (heap (link da a s)) = length (heap s)"
  "trustlist (link da a s) = trustlist s"
  "banlist (link da a s) = banlist s"
  by (simp_all add: link_def Let_def set_node_def)

lemma set_add_set [simp]: "set (set_add x xs) = insert x (set xs)"
  by (auto simp: set_add_def)











subsection \<open>The flags after a mutation\<close>


lemma empty_db_invariant: "well_formed empty_db \<and> ready_invariant empty_db"
  by (simp add: well_formed_def mirrored_def ready_invariant_def empty_db_def)



end
